theory Spec2Isabelle
  imports Main "HOL-Library.Signed_Division"
begin

section \<open>TNetXNGFile: remote file access through the XRootD client\<close>

text \<open>
  A shallow embedding of \<^verbatim>\<open>net/netxng/src/TNetXNGFile.cxx\<close>: the asynchronous-open
  status, \<^verbatim>\<open>ReOpen\<close>, and the vectored read \<^verbatim>\<open>ReadBuffers\<close> with its chunk planning,
  dispatch and join. The remote session (\<^verbatim>\<open>XrdCl::File\<close>) is external: what it answers
  is a parameter of each operation.
\<close>

subsection \<open>Machine integers\<close>

text \<open>
  \<^verbatim>\<open>Int_t\<close> is a 32-bit signed integer, \<^verbatim>\<open>Long64_t\<close> a 64-bit signed one. Values are
  kept as \<open>int\<close>; each conversion the source performs is written out. \<^verbatim>\<open>ChunkInfo\<close>
  takes a \<^verbatim>\<open>uint64_t\<close> offset and a \<^verbatim>\<open>uint32_t\<close> length.
\<close>

definition Int_t_of :: "int \<Rightarrow> int" where
  "Int_t_of x = (x + 2 ^ 31) mod 2 ^ 32 - 2 ^ 31"

definition Long64_t_of :: "int \<Rightarrow> int" where
  "Long64_t_of x = (x + 2 ^ 63) mod 2 ^ 64 - 2 ^ 63"

definition uint64_of :: "int \<Rightarrow> int" where
  "uint64_of x = x mod 2 ^ 64"

definition uint32_of :: "int \<Rightarrow> int" where
  "uint32_of x = x mod 2 ^ 32"

subsection \<open>Statuses, modes and the file object\<close>

text \<open>\<^verbatim>\<open>XrdCl::XRootDStatus\<close>, as far as the file reads it: \<^verbatim>\<open>IsOK()\<close> and \<^verbatim>\<open>ToStr()\<close>.\<close>

datatype XRootDStatus = XRootDStatus (IsOK: bool) (ToStr: string)

text \<open>The values of \<^verbatim>\<open>XrdCl::OpenFlags::Flags\<close> that \<^verbatim>\<open>ParseOpenMode\<close> produces.\<close>

datatype OpenFlags = OpenFlags_None | OpenFlags_New | OpenFlags_Delete
  | OpenFlags_Update | OpenFlags_Read

text \<open>
  Modelled from the spec: the enumeration \<^verbatim>\<open>TFile::EAsyncOpenStatus\<close> is declared in
  \<^verbatim>\<open>TFile.h\<close>, which is not part of the sources at hand. The source names
  \<^verbatim>\<open>kAOSInProgress\<close>, \<^verbatim>\<open>kAOSSuccess\<close> and \<^verbatim>\<open>kAOSFailure\<close>; the fourth value is the
  specification's NotStarted.
\<close>

datatype EAsyncOpenStatus = kAOSNotAsync | kAOSFailure | kAOSInProgress | kAOSSuccess

text \<open>
  The fields of the file object that the modelled operations read or write.
  \<open>fZombie\<close> is the bit behind \<^verbatim>\<open>IsZombie()\<close> and \<^verbatim>\<open>MakeZombie()\<close>, \<open>fFile_IsOpen\<close>
  is the answer of \<^verbatim>\<open>fFile->IsOpen()\<close>, and \<open>fInitCondVar_signals\<close> counts the calls
  of \<^verbatim>\<open>fInitCondVar->Signal()\<close>.
\<close>

record TNetXNGFile =
  fMode :: OpenFlags
  fAsyncOpenStatus :: EAsyncOpenStatus
  fInitDone :: bool
  fZombie :: bool
  fFile_IsOpen :: bool
  fInitCondVar_signals :: nat
  fReadvIorMax :: int
  fReadvIovMax :: int
  fArchiveOffset :: int
  fBytesRead :: int
  fReadCalls :: int
  fOffset :: int

definition IsOpen :: "TNetXNGFile \<Rightarrow> bool" where
  "IsOpen f = fFile_IsOpen f"

text \<open>\<^verbatim>\<open>IsUseable\<close> returns the verdict and the messages it passes to \<^verbatim>\<open>Error\<close>.\<close>

definition IsUseable :: "TNetXNGFile \<Rightarrow> bool \<times> string list" where
  "IsUseable f =
     (if fZombie f then (False, [''Object is in 'zombie' state''])
      else if \<not> IsOpen f then (False, [''The remote file is not open''])
      else (True, []))"

subsection \<open>Asynchronous open\<close>

definition SetAsyncOpenStatus :: "TNetXNGFile \<Rightarrow> EAsyncOpenStatus \<Rightarrow> TNetXNGFile" where
  "SetAsyncOpenStatus f status =
     f\<lparr>fAsyncOpenStatus := status,
       fInitCondVar_signals := Suc (fInitCondVar_signals f)\<rparr>"

text \<open>The constructor of \<^verbatim>\<open>TAsyncOpenHandler\<close> and its \<^verbatim>\<open>HandleResponse\<close>.\<close>

definition TAsyncOpenHandler :: "TNetXNGFile \<Rightarrow> TNetXNGFile" where
  "TAsyncOpenHandler fFile = SetAsyncOpenStatus fFile kAOSInProgress"

definition TAsyncOpenHandler_HandleResponse :: "TNetXNGFile \<Rightarrow> XRootDStatus \<Rightarrow> TNetXNGFile" where
  "TAsyncOpenHandler_HandleResponse fFile status =
     (if IsOK status then SetAsyncOpenStatus fFile kAOSSuccess
      else SetAsyncOpenStatus fFile kAOSFailure)"

subsection \<open>Open modes and ReOpen\<close>

text \<open>\<^verbatim>\<open>ToUpper\<close> on a \<^verbatim>\<open>TString\<close>: the letters a to z become A to Z.\<close>

definition toupper :: "char \<Rightarrow> char" where
  "toupper c =
     (if 97 \<le> (of_char c :: nat) \<and> (of_char c :: nat) \<le> 122
      then char_of ((of_char c :: nat) - 32) else c)"

definition ToUpper :: "string \<Rightarrow> string" where
  "ToUpper s = map toupper s"

definition ParseOpenMode :: "string \<Rightarrow> OpenFlags" where
  "ParseOpenMode modestr =
     (let mod' = ToUpper modestr in
      if mod' = ''NEW'' \<or> mod' = ''CREATE'' then OpenFlags_New
      else if mod' = ''RECREATE'' then OpenFlags_Delete
      else if mod' = ''UPDATE'' then OpenFlags_Update
      else if mod' = ''READ'' then OpenFlags_Read
      else OpenFlags_None)"

text \<open>
  \<^verbatim>\<open>ReOpen\<close>. The parameter \<open>st\<close> is what the session answers to the \<^verbatim>\<open>Open\<close> call,
  should the call be reached. The result is the returned \<^verbatim>\<open>Int_t\<close>, the file afterwards
  and the messages passed to \<^verbatim>\<open>Error\<close>. \<^verbatim>\<open>fFile->Close()\<close> leaves the session closed;
  an \<^verbatim>\<open>Open\<close> that is OK leaves it open.
\<close>

definition ReOpen :: "TNetXNGFile \<Rightarrow> string \<Rightarrow> XRootDStatus \<Rightarrow> int \<times> TNetXNGFile \<times> string list" where
  "ReOpen f modestr st =
     (let mode = ParseOpenMode modestr in
      if mode \<noteq> OpenFlags_Read \<and> mode \<noteq> OpenFlags_Update
      then (1, f, [''mode must be either READ or UPDATE, not '' @ modestr])
      else if mode = fMode f \<or> (mode = OpenFlags_Update \<and> fMode f = OpenFlags_New)
      then (1, f, [])
      else
        let f1 = f\<lparr>fFile_IsOpen := False\<rparr>;
            f2 = f1\<lparr>fMode := mode\<rparr>
        in if \<not> IsOK st then (1, f2, [ToStr st])
           else (0, f2\<lparr>fFile_IsOpen := True\<rparr>, []))"

subsection \<open>ReadBuffers: building the chunk lists\<close>

text \<open>
  \<^verbatim>\<open>XrdCl::ChunkInfo(offset, length, buffer)\<close>. Every chunk of a call carries the same
  \<^verbatim>\<open>buffer\<close> pointer, which is left out.
\<close>

record ChunkInfo =
  offset :: int
  length_c :: int

type_synonym ChunkList = "ChunkInfo list"

text \<open>
  The construction \<^verbatim>\<open>ChunkInfo(offset, len, buffer)\<close> from the local \<^verbatim>\<open>Int_t offset\<close> and
  an \<^verbatim>\<open>Int_t\<close> length: the assignment to \<^verbatim>\<open>offset\<close> keeps the low 32 bits of the
  \<^verbatim>\<open>Long64_t\<close> sum, and the constructor converts to its unsigned parameter types.
\<close>

definition push_chunk :: "int \<Rightarrow> int \<Rightarrow> ChunkInfo" where
  "push_chunk off len = \<lparr>offset = uint64_of (Int_t_of off), length_c = uint32_of len\<rparr>"

text \<open>What stops a call short of a return value.\<close>

datatype error =
    DivisionByZero
  | IteratorOutOfRange
  | StatusIndexOutOfRange
  | NullStatus
  | WaitsForever
  | UseAfterFree
  | ArrayOutOfBounds

text \<open>
  The loop \<^verbatim>\<open>for (j = 0; j < nsplit; ++j)\<close>, which adds the chunks of maximal
  size; it returns the chunk list and the final value of \<^verbatim>\<open>j\<close>. The loop runs only
  for a positive limit below the length, where \<^verbatim>\<open>j * fReadvIorMax\<close> is at most the
  length: the \<^verbatim>\<open>Int_t\<close> product does not overflow. The \<^verbatim>\<open>Long64_t\<close> sum is cut to 32
  bits by the assignment, so that a wrap at 64 bits would not show.
\<close>

function split_loop :: "int \<Rightarrow> int \<Rightarrow> int \<Rightarrow> int \<Rightarrow> ChunkList \<Rightarrow> ChunkList \<times> int" where
  "split_loop position M nsplit j chunks =
     (if j < nsplit
      then split_loop position M nsplit (j + 1) (chunks @ [push_chunk (position + j * M) M])
      else (chunks, j))"
  by pat_completeness auto
termination
  by (relation "measure (\<lambda>(position, M, nsplit, j, chunks). nat (nsplit - j))") auto

declare split_loop.simps [simp del]

text \<open>
  The first half of the body of the loop over the buffers: the chunks of one
  descriptor \<^verbatim>\<open>(position[i], length[i])\<close> are appended to \<^verbatim>\<open>chunks\<close>. \<open>M\<close> is
  \<^verbatim>\<open>fReadvIorMax\<close>; \<^verbatim>\<open>/\<close> and \<^verbatim>\<open>%\<close> truncate towards zero and trap on a zero divisor.
\<close>

definition add_descriptor :: "int \<Rightarrow> ChunkList \<Rightarrow> int \<times> int \<Rightarrow> error + ChunkList" where
  "add_descriptor M chunks d =
     (case d of (position, len) \<Rightarrow>
        if len > M then
          (if M = 0 then Inl DivisionByZero
           else
             let nsplit = len sdiv M;
                 rem = len smod M;
                 (chunks1, j) = split_loop position M nsplit 0 chunks
             in Inr (chunks1 @ [push_chunk (position + j * M) rem]))
        else Inr (chunks @ [push_chunk position len]))"

text \<open>
  The second half: closing a chunk list. \<open>V\<close> is \<^verbatim>\<open>fReadvIovMax\<close>. The iterator
  \<^verbatim>\<open>chunks.begin() + fReadvIovMax\<close> is outside the vector for a negative \<open>V\<close>.
\<close>

definition close_list :: "int \<Rightarrow> ChunkList list \<times> ChunkList \<Rightarrow> error + ChunkList list \<times> ChunkList" where
  "close_list V st =
     (case st of (chunkLists, chunks) \<Rightarrow>
        if Int_t_of (int (length chunks)) = V
        then Inr (chunkLists @ [chunks], [])
        else if Int_t_of (int (length chunks)) > V
        then (if V < 0 then Inl IteratorOutOfRange
              else Inr (chunkLists @ [take (nat V) chunks], drop (nat V) chunks))
        else Inr (chunkLists, chunks))"

text \<open>The loop over the buffers, then \<^verbatim>\<open>chunkLists.push_back(chunks)\<close>.\<close>

fun build_chunks :: "int \<Rightarrow> int \<Rightarrow> ChunkList list \<times> ChunkList \<Rightarrow> (int \<times> int) list
    \<Rightarrow> error + ChunkList list \<times> ChunkList" where
  "build_chunks M V st [] = Inr st"
| "build_chunks M V st (d # ds) =
     (case add_descriptor M (snd st) d of
        Inl e \<Rightarrow> Inl e
      | Inr chunks \<Rightarrow>
          (case close_list V (fst st, chunks) of
             Inl e \<Rightarrow> Inl e
           | Inr st' \<Rightarrow> build_chunks M V st' ds))"

definition build_chunkLists :: "int \<Rightarrow> int \<Rightarrow> (int \<times> int) list \<Rightarrow> error + ChunkList list" where
  "build_chunkLists M V ds =
     (case build_chunks M V ([], []) ds of
        Inl e \<Rightarrow> Inl e
      | Inr (chunkLists, chunks) \<Rightarrow> Inr (chunkLists @ [chunks]))"

text \<open>
  The chunks in the order of their \<^verbatim>\<open>push_back\<close>, with the closing of lists left
  aside: the sequence that the chunk lists cut into pieces.
\<close>

fun all_chunks :: "int \<Rightarrow> ChunkList \<Rightarrow> (int \<times> int) list \<Rightarrow> error + ChunkList" where
  "all_chunks M chunks [] = Inr chunks"
| "all_chunks M chunks (d # ds) =
     (case add_descriptor M chunks d of
        Inl e \<Rightarrow> Inl e
      | Inr chunks' \<Rightarrow> all_chunks M chunks' ds)"

subsection \<open>ReadBuffers: dispatch and join\<close>

text \<open>
  The dispatch loop. \<open>vread i l\<close> is the status that \<^verbatim>\<open>fFile->VectorRead\<close> returns for
  the chunk list \<open>l\<close> at index \<open>i\<close>. The result is the number of calls made and the
  status that stopped the loop, if one did.
\<close>

fun dispatch :: "(nat \<Rightarrow> ChunkList \<Rightarrow> XRootDStatus) \<Rightarrow> nat \<Rightarrow> ChunkList list
    \<Rightarrow> nat \<times> XRootDStatus option" where
  "dispatch vread i [] = (i, None)"
| "dispatch vread i (l # ls) =
     (let status = vread i l in
      if \<not> IsOK status then (Suc i, Some status)
      else dispatch vread (Suc i) ls)"

text \<open>
  \<^verbatim>\<open>TAsyncReadvHandler::HandleResponse\<close> on the status vector and the semaphore:
  \<^verbatim>\<open>fStatuses->at(fStatusIndex) = status; fSemaphore->Post()\<close>. A slot holds a pointer,
  null (\<open>None\<close>) until a response is stored.
\<close>

definition TAsyncReadvHandler_HandleResponse ::
    "XRootDStatus option list \<times> nat \<Rightarrow> nat \<times> XRootDStatus
     \<Rightarrow> error + XRootDStatus option list \<times> nat" where
  "TAsyncReadvHandler_HandleResponse s r =
     (case (s, r) of ((statuses, semaphore), (fStatusIndex, status)) \<Rightarrow>
        if fStatusIndex < length statuses
        then Inr (statuses[fStatusIndex := Some status], Suc semaphore)
        else Inl StatusIndexOutOfRange)"

text \<open>The responses of a call, handled one after the other in their order of arrival.\<close>

fun responses :: "XRootDStatus option list \<times> nat \<Rightarrow> (nat \<times> XRootDStatus) list
    \<Rightarrow> error + XRootDStatus option list \<times> nat" where
  "responses s [] = Inr s"
| "responses s (r # rs) =
     (case TAsyncReadvHandler_HandleResponse s r of
        Inl e \<Rightarrow> Inl e
      | Inr s' \<Rightarrow> responses s' rs)"

text \<open>
  The loop of \<^verbatim>\<open>semaphore->Wait()\<close>, one per chunk list: a wait on a semaphore
  at zero that nobody posts to any more does not return.
\<close>

fun wait_all :: "nat \<Rightarrow> nat \<Rightarrow> error + nat" where
  "wait_all 0 semaphore = Inr semaphore"
| "wait_all (Suc n) semaphore =
     (if semaphore = 0 then Inl WaitsForever else wait_all n (semaphore - 1))"

text \<open>
  The loop that checks for errors, in the order of the indices, up to the first
  status that is not OK, if there is one. Each status that is OK is deleted: the
  first component counts them.
\<close>

fun check_errors :: "nat \<Rightarrow> XRootDStatus option list \<Rightarrow> nat \<times> (error + XRootDStatus option)" where
  "check_errors n [] = (n, Inr None)"
| "check_errors n (None # sts) = (n, Inl NullStatus)"
| "check_errors n (Some st # sts) =
     (if \<not> IsOK st then (n, Inr (Some st)) else check_errors (Suc n) sts)"

text \<open>
  What a call of \<^verbatim>\<open>ReadBuffers\<close> leaves behind. \<open>returned\<close> is the \<^verbatim>\<open>Bool_t\<close> the call
  returns (\<^verbatim>\<open>kTRUE\<close> in case of failure), or what keeps it from returning. The other
  fields hold what has happened by then: the messages passed to \<^verbatim>\<open>Error\<close>, the chunk
  lists handed to \<^verbatim>\<open>VectorRead\<close>, the number of \<^verbatim>\<open>semaphore->Wait()\<close> that returned,
  the number of status objects deleted, whether \<^verbatim>\<open>delete statuses; delete semaphore\<close>
  was executed, the length passed to \<^verbatim>\<open>gPerfStats->FileReadEvent\<close>, and the file.
\<close>

record ReadBuffers_result =
  returned :: "error + bool"
  errors :: "string list"
  submitted :: "ChunkList list"
  waited :: nat
  deleted :: nat
  freed :: bool
  read_event :: "int option"
  this :: TNetXNGFile

text \<open>
  The loop \<^verbatim>\<open>if (fArchiveOffset) for (...) position[i] += fArchiveOffset\<close> on the
  pairs \<^verbatim>\<open>(position[i], length[i])\<close>, in \<^verbatim>\<open>Long64_t\<close>. The rest of the call reads the
  positions as this loop leaves them.
\<close>

definition add_archive_offset :: "TNetXNGFile \<Rightarrow> (int \<times> int) list \<Rightarrow> (int \<times> int) list" where
  "add_archive_offset f ds =
     (if fArchiveOffset f \<noteq> 0
      then map (\<lambda>(position, len). (Long64_t_of (position + fArchiveOffset f), len)) ds
      else ds)"

text \<open>\<^verbatim>\<open>totalBytes += length[i]\<close> over the buffers, in \<^verbatim>\<open>Int_t\<close>.\<close>

definition total_bytes :: "(int \<times> int) list \<Rightarrow> int" where
  "total_bytes ds = foldl (\<lambda>totalBytes d. Int_t_of (totalBytes + snd d)) 0 ds"

text \<open>
  \<^verbatim>\<open>ReadBuffers\<close>. \<open>ds\<close> holds the pairs \<^verbatim>\<open>(position[i], length[i])\<close> for \<^verbatim>\<open>i < nbuffs\<close>;
  \<open>gPerfStats\<close> tells whether the global of that name is set; \<open>vread\<close> is the
  session's answer to each \<^verbatim>\<open>VectorRead\<close>, and \<open>arrivals\<close> the responses in their order
  of arrival, each with the index of its handler.

  When a status is not OK, the last loop executes \<^verbatim>\<open>delete statuses\<close> and then
  reads \<^verbatim>\<open>statuses->at(...)\<close>: the call does not get to its \<^verbatim>\<open>return kTRUE\<close> by defined
  behaviour. With \<open>gPerfStats\<close> set, the call reads \<^verbatim>\<open>position[0]\<close>,
  \<^verbatim>\<open>position[nbuffs - 1]\<close> and \<^verbatim>\<open>length[nbuffs - 1]\<close>, which lie outside the arrays when
  \<^verbatim>\<open>nbuffs\<close> is zero. The time stamp taken for \<open>gPerfStats\<close>, the call of
  \<^verbatim>\<open>gMonitoringWriter\<close> and the static counters \<^verbatim>\<open>fgBytesRead\<close> and \<^verbatim>\<open>fgReadCalls\<close>, which
  get the same increments as the counters of the file, are left out.
\<close>

definition ReadBuffers :: "TNetXNGFile \<Rightarrow> (int \<times> int) list \<Rightarrow> bool
    \<Rightarrow> (nat \<Rightarrow> ChunkList \<Rightarrow> XRootDStatus) \<Rightarrow> (nat \<times> XRootDStatus) list
    \<Rightarrow> ReadBuffers_result" where
  "ReadBuffers f ds gPerfStats vread arrivals =
     (if \<not> fst (IsUseable f)
      then \<lparr>returned = Inr True, errors = snd (IsUseable f), submitted = [], waited = 0,
            deleted = 0, freed = False, read_event = None, this = f\<rparr>
      else
        let totalBytes = total_bytes ds;
            ds' = add_archive_offset f ds
        in case build_chunkLists (fReadvIorMax f) (fReadvIovMax f) ds' of
             Inl e \<Rightarrow>
               \<lparr>returned = Inl e, errors = [], submitted = [], waited = 0,
                deleted = 0, freed = False, read_event = None, this = f\<rparr>
           | Inr chunkLists \<Rightarrow>
               (case dispatch vread 0 chunkLists of
                  (n, Some status) \<Rightarrow>
                    \<lparr>returned = Inr True, errors = [ToStr status],
                     submitted = take n chunkLists, waited = 0, deleted = 0,
                     freed = False, read_event = None, this = f\<rparr>
                | (n, None) \<Rightarrow>
                    (case responses (replicate (length chunkLists) None, 0) arrivals of
                       Inl e \<Rightarrow>
                         \<lparr>returned = Inl e, errors = [], submitted = chunkLists,
                          waited = 0, deleted = 0, freed = False, read_event = None,
                          this = f\<rparr>
                     | Inr (statuses, semaphore) \<Rightarrow>
                         (case wait_all (length chunkLists) semaphore of
                            Inl e \<Rightarrow>
                              \<lparr>returned = Inl e, errors = [], submitted = chunkLists,
                               waited = semaphore, deleted = 0, freed = False,
                               read_event = None, this = f\<rparr>
                          | Inr _ \<Rightarrow>
                              (case check_errors 0 statuses of
                                 (k, Inl e) \<Rightarrow>
                                   \<lparr>returned = Inl e, errors = [],
                                    submitted = chunkLists, waited = length chunkLists,
                                    deleted = k, freed = False, read_event = None,
                                    this = f\<rparr>
                               | (k, Inr (Some st)) \<Rightarrow>
                                   \<lparr>returned = Inl UseAfterFree, errors = [ToStr st],
                                    submitted = chunkLists, waited = length chunkLists,
                                    deleted = k, freed = True, read_event = None,
                                    this = f\<rparr>
                               | (k, Inr None) \<Rightarrow>
                                   let f' = f\<lparr>fBytesRead := Long64_t_of (fBytesRead f + totalBytes),
                                              fReadCalls := Int_t_of (fReadCalls f + 1)\<rparr>
                                   in if gPerfStats then
                                        (case ds' of
                                           [] \<Rightarrow>
                                             \<lparr>returned = Inl ArrayOutOfBounds, errors = [],
                                              submitted = chunkLists,
                                              waited = length chunkLists, deleted = k,
                                              freed = False, read_event = None,
                                              this = f'\<rparr>
                                         | d # _ \<Rightarrow>
                                             \<lparr>returned = Inr False, errors = [],
                                              submitted = chunkLists,
                                              waited = length chunkLists, deleted = k,
                                              freed = True,
                                              read_event = Some (Long64_t_of
                                                (fst (last ds') + snd (last ds') - fst d)),
                                              this = f'\<lparr>fOffset := fst d\<rparr>\<rparr>)
                                      else
                                        \<lparr>returned = Inr False, errors = [],
                                         submitted = chunkLists,
                                         waited = length chunkLists, deleted = k,
                                         freed = True, read_event = None,
                                         this = f'\<rparr>)))))"

subsection \<open>Init\<close>

text \<open>
  \<^verbatim>\<open>GetVectorReadLimits\<close>. \<open>config\<close> is \<open>None\<close> when the data server is not known or
  the query is not answered; otherwise it holds the value of \<^verbatim>\<open>Atoi\<close> for each line
  of the response. The result is the returned \<^verbatim>\<open>Bool_t\<close>, the file and the messages
  passed to \<^verbatim>\<open>Error\<close>.
\<close>

fun read_limits :: "TNetXNGFile \<Rightarrow> int list \<Rightarrow> TNetXNGFile" where
  "read_limits f [] = f"
| "read_limits f (token # tokens) =
     read_limits
       (if fReadvIorMax f = 0 then f\<lparr>fReadvIorMax := token\<rparr>
        else if fReadvIovMax f = 0 then f\<lparr>fReadvIovMax := token\<rparr>
        else f)
       tokens"

definition GetVectorReadLimits :: "TNetXNGFile \<Rightarrow> int list option
    \<Rightarrow> bool \<times> TNetXNGFile \<times> string list" where
  "GetVectorReadLimits f config =
     (let f1 = f\<lparr>fReadvIorMax := 2097136, fReadvIovMax := 1024\<rparr> in
      if \<not> fst (IsUseable f1) then (False, f1, snd (IsUseable f1))
      else case config of
             None \<Rightarrow> (False, f1, [])
           | Some tokens \<Rightarrow>
               (True, read_limits (f1\<lparr>fReadvIorMax := 0, fReadvIovMax := 0\<rparr>) tokens, []))"




subsection \<open>Reference values\<close>

text \<open>
  The split of a length \<open>L\<close> under a chunk limit \<open>M\<close> in the specification's words:
  \<open>floor (L / M)\<close> chunks of size \<open>M\<close>, then one chunk of size \<open>L mod M\<close>, omitted if
  zero; a single chunk if \<open>L \<le> M\<close>.
\<close>

definition spec_split_lengths :: "int \<Rightarrow> int \<Rightarrow> int list" where
  "spec_split_lengths L M =
     (if L \<le> M then [L]
      else replicate (nat (L div M)) M @ (if L mod M = 0 then [] else [L mod M]))"

text \<open>
  A file as the constructor leaves it after a synchronous open for reading, with
  the limits \<^verbatim>\<open>GetVectorReadLimits\<close> sets before it queries the server.
\<close>

definition opened_file :: TNetXNGFile where
  "opened_file =
     \<lparr>fMode = OpenFlags_Read, fAsyncOpenStatus = kAOSNotAsync, fInitDone = True,
      fZombie = False, fFile_IsOpen = True, fInitCondVar_signals = 0,
      fReadvIorMax = 2097136, fReadvIovMax = 1024, fArchiveOffset = 0,
      fBytesRead = 0, fReadCalls = 0, fOffset = 0\<rparr>"

section \<open>The chunks of one descriptor\<close>

lemma split_loop_eq:
  "split_loop position M nsplit j chunks =
     (chunks @ map (\<lambda>i. push_chunk (position + i * M) M) [j..nsplit - 1], max j nsplit)"
proof (induction position M nsplit j chunks rule: split_loop.induct)
  case (1 position M nsplit j chunks)
  show ?case
  proof (cases "j < nsplit")
    case True
    then have "[j..nsplit - 1] = j # [j + 1..nsplit - 1]"
      by (simp add: upto_rec1)
    with True 1 show ?thesis
      by (subst split_loop.simps) simp
  next
    case False
    then show ?thesis
      by (subst split_loop.simps) simp
  qed
qed

lemma sdiv_smod_nonneg:
  fixes L M :: int
  assumes "0 \<le> L" "0 < M"
  shows "L sdiv M = L div M" "L smod M = L mod M"
  using assms by (cases "L = 0"; simp add: signed_divide_int_def signed_modulo_int_def)+

lemma add_descriptor_split:
  assumes "0 < M" "M < L"
  shows "add_descriptor M chunks (position, L) =
     Inr (chunks @ map (\<lambda>i. push_chunk (position + i * M) M) [0..L div M - 1]
            @ [push_chunk (position + (L div M) * M) (L mod M)])"
proof -
  have "0 \<le> L div M" using assms by (simp add: pos_imp_zdiv_nonneg_iff)
  then show ?thesis
    using assms by (simp add: add_descriptor_def split_loop_eq sdiv_smod_nonneg Let_def)
qed

lemma add_descriptor_single:
  assumes "L \<le> M"
  shows "add_descriptor M chunks (position, L) = Inr (chunks @ [push_chunk position L])"
  using assms by (simp add: add_descriptor_def)

lemma length_c_push_chunk:
  "0 \<le> len \<Longrightarrow> len < 2 ^ 32 \<Longrightarrow> length_c (push_chunk off len) = len"
  by (simp add: push_chunk_def uint32_of_def)

text \<open>
  C1, as the code has it. For a descriptor of positive length \<open>L\<close> and a chunk limit
  \<open>M\<close>, both positive \<^verbatim>\<open>Int_t\<close> values, the step that builds the chunks never fails.
  If \<open>L \<le> M\<close> it adds a single chunk of length \<open>L\<close>. If \<open>L > M\<close> it adds
  \<open>floor (L / M)\<close> chunks of length \<open>M\<close> followed by one chunk of length \<open>L mod M\<close>,
  which is there also when \<open>L mod M = 0\<close>: \<open>floor (L / M) + 1\<close> chunks. In both cases
  the lengths of the chunks sum to \<open>L\<close>.
\<close>

theorem add_descriptor_lengths:
  assumes "0 < M" and "M < 2 ^ 31" and "0 < L" and "L < 2 ^ 31"
  shows "\<exists>new. add_descriptor M [] (position, L) = Inr new
           \<and> map length_c new = (if M < L then replicate (nat (L div M)) M @ [L mod M] else [L])
           \<and> int (length new) = (if M < L then L div M + 1 else 1)
           \<and> sum_list (map length_c new) = L"
proof (cases "M < L")
  case True
  let ?new = "map (\<lambda>i. push_chunk (position + i * M) M) [0..L div M - 1]
            @ [push_chunk (position + (L div M) * M) (L mod M)]"
  have new: "add_descriptor M [] (position, L) = Inr ?new"
    using add_descriptor_split [OF assms(1) True, of "[]"] by simp
  have q: "0 \<le> L div M" using assms by (simp add: pos_imp_zdiv_nonneg_iff)
  have lt: "L mod M < M" using assms(1) by (rule pos_mod_bound)
  have "(2::int) ^ 31 < 2 ^ 32" by simp
  with lt assms(2) have "L mod M < 2 ^ 32" by linarith
  moreover have "0 \<le> L mod M" using assms(1) by simp
  ultimately have r: "0 \<le> L mod M" "L mod M < 2 ^ 32" by blast+
  have m: "length_c (push_chunk off M) = M" for off
    using assms by (simp add: length_c_push_chunk)
  have "map length_c (map (\<lambda>i. push_chunk (position + i * M) M) [0..L div M - 1])
          = replicate (length [0..L div M - 1]) M"
    unfolding map_map comp_def m by (rule map_replicate_const)
  then have lens: "map length_c ?new = replicate (nat (L div M)) M @ [L mod M]"
    using q r by (simp add: length_c_push_chunk)
  have "sum_list (map length_c ?new) = L div M * M + L mod M"
    unfolding lens using q by (simp add: sum_list_replicate)
  then have "sum_list (map length_c ?new) = L" by simp
  moreover have "int (length ?new) = L div M + 1" using q by simp
  ultimately show ?thesis using new lens True by auto
next
  case False
  then show ?thesis
    using assms by (simp add: add_descriptor_single length_c_push_chunk)
qed

theorem add_descriptor_lengths_witness:
  "\<exists>new. add_descriptor 2097136 [] (100, 5000000) = Inr new
      \<and> map length_c new = [2097136, 2097136, 805728]
      \<and> int (length new) = 3
      \<and> sum_list (map length_c new) = 5000000"
  using add_descriptor_lengths [of 2097136 5000000 100]
  by (simp add: numeral_2_eq_2)

text \<open>
  A length that is an exact multiple of the limit: the code adds three chunks, the
  last of length zero, where the specification's split has two.
\<close>

theorem exact_multiple_counterexample:
  "add_descriptor 2097136 [] (0, 4194272) =
     Inr [\<lparr>offset = 0, length_c = 2097136\<rparr>,
          \<lparr>offset = 2097136, length_c = 2097136\<rparr>,
          \<lparr>offset = 4194272, length_c = 0\<rparr>]
   \<and> spec_split_lengths 4194272 2097136 = [2097136, 2097136]"
  by (simp add: add_descriptor_def split_loop.simps push_chunk_def Int_t_of_def
      uint64_of_def uint32_of_def signed_divide_int_def signed_modulo_int_def
      spec_split_lengths_def numeral_2_eq_2)

lemma add_descriptor_append:
  "add_descriptor M chunks d =
     (case add_descriptor M [] d of Inl e \<Rightarrow> Inl e | Inr new \<Rightarrow> Inr (chunks @ new))"
  by (cases d) (simp add: add_descriptor_def split_loop_eq Let_def)



text \<open>
  C5, as the code has it. A descriptor of length zero is not skipped: whatever the
  chunk limit, it adds exactly one chunk, of length zero, at the descriptor's
  (truncated) position.
\<close>

theorem zero_length_descriptor_chunk:
  "add_descriptor M chunks (position, 0) = Inr (chunks @ [push_chunk position 0])
   \<and> length_c (push_chunk position 0) = 0"
  by (simp add: add_descriptor_def split_loop_eq push_chunk_def uint32_of_def)

text \<open>A single descriptor of length zero: the one chunk list holds a chunk.\<close>

theorem zero_length_descriptor_counterexample:
  "build_chunkLists 2097136 1024 [(100, 0)] = Inr [[\<lparr>offset = 100, length_c = 0\<rparr>]]"
  by (simp add: build_chunkLists_def close_list_def add_descriptor_def push_chunk_def
      Int_t_of_def uint64_of_def uint32_of_def)

section \<open>File positions\<close>

text \<open>
  As long as the descriptor ends below \<open>2 ^ 31\<close>, the chunk with index \<open>k\<close> starts at
  the descriptor's position plus \<open>k\<close> full chunks.
\<close>

lemma offset_push_chunk:
  "0 \<le> off \<Longrightarrow> off < 2 ^ 31 \<Longrightarrow> offset (push_chunk off len) = off"
  by (simp add: push_chunk_def Int_t_of_def uint64_of_def)

lemma upto_as_upt: "[0..int n - 1] = map int [0..<n]"
proof (induction n)
  case 0
  show ?case by simp
next
  case (Suc n)
  have "[0..int (Suc n) - 1] = [0..int n - 1] @ [int n]"
    using upto_rec2 [of 0 "int n"] by simp
  with Suc show ?case by simp
qed

lemma add_descriptor_offsets_in_range:
  assumes "0 < M" and "M < L" and "0 \<le> position" and "position + L < 2 ^ 31"
  shows "\<exists>new. add_descriptor M [] (position, L) = Inr new
           \<and> map offset new = map (\<lambda>k. position + int k * M) [0..<length new]"
proof -
  let ?q = "L div M"
  let ?new = "map (\<lambda>i. push_chunk (position + i * M) M) [0..?q - 1]
            @ [push_chunk (position + ?q * M) (L mod M)]"
  have new: "add_descriptor M [] (position, L) = Inr ?new"
    using add_descriptor_split [OF assms(1,2), of "[]"] by simp
  have q: "0 \<le> ?q" using assms by (simp add: pos_imp_zdiv_nonneg_iff)
  have "?q * M + L mod M = L" by simp
  moreover have "0 \<le> L mod M" using assms(1) by simp
  ultimately have qM: "?q * M \<le> L" by linarith
  have off: "offset (push_chunk (position + i * M) len) = position + i * M"
    if "0 \<le> i" "i \<le> ?q" for i len
  proof -
    have "i * M \<le> ?q * M" using that assms(1) by (simp add: mult_right_mono)
    moreover have "0 \<le> i * M" using that assms(1) by simp
    ultimately have "0 \<le> position + i * M" "position + i * M < 2 ^ 31"
      using qM assms(3,4) by linarith+
    then show ?thesis by (rule offset_push_chunk)
  qed
  have a: "map offset (map (\<lambda>i. push_chunk (position + i * M) M) [0..?q - 1])
      = map (\<lambda>i. position + i * M) [0..?q - 1]"
    unfolding map_map by (rule map_cong) (auto simp: off)
  have b: "[0..?q - 1] = map int [0..<nat ?q]"
    using upto_as_upt [of "nat ?q"] q by simp
  have c: "map (\<lambda>i. position + i * M) [0..?q - 1]
      = map (\<lambda>k. position + int k * M) [0..<nat ?q]"
    by (subst b) (simp add: comp_def)
  have d: "offset (push_chunk (position + ?q * M) (L mod M)) = position + int (nat ?q) * M"
    using off [of ?q] q by simp
  have "map offset ?new = map (\<lambda>k. position + int k * M) [0..<nat ?q]
                            @ [position + int (nat ?q) * M]"
    by (simp only: map_append list.map a c d)
  then have "map offset ?new = map (\<lambda>k. position + int k * M) [0..<Suc (nat ?q)]"
    by simp
  moreover have "length ?new = Suc (nat ?q)" using q by simp
  ultimately show ?thesis using new by auto
qed


text \<open>
  C6 at a position beyond the range of \<^verbatim>\<open>Int_t\<close>. The position passes through the
  local \<^verbatim>\<open>Int_t offset\<close>: a read of 10 bytes at position \<open>2 ^ 32\<close> is planned as a
  chunk at offset 0, and one at position \<open>2 ^ 31\<close> as a chunk at offset
  \<open>2 ^ 64 - 2 ^ 31\<close>. The chunks do not start at the descriptor's position.
\<close>

theorem offset_truncated:
  "build_chunkLists 2097136 1024 [(4294967296, 10)] = Inr [[\<lparr>offset = 0, length_c = 10\<rparr>]]
   \<and> build_chunkLists 2097136 1024 [(2147483648, 10)]
       = Inr [[\<lparr>offset = 18446744071562067968, length_c = 10\<rparr>]]"
  by (simp add: build_chunkLists_def close_list_def add_descriptor_def push_chunk_def
      Int_t_of_def uint64_of_def uint32_of_def)

section \<open>Chunk lists\<close>

lemma all_chunks_prefix:
  "all_chunks M (pre @ chunks) ds =
     (case all_chunks M chunks ds of Inl e \<Rightarrow> Inl e | Inr r \<Rightarrow> Inr (pre @ r))"
proof (induction ds arbitrary: chunks)
  case Nil
  show ?case by simp
next
  case (Cons d ds)
  show ?case
  proof (cases "add_descriptor M [] d")
    case (Inl e)
    then show ?thesis
      by (simp add: add_descriptor_append [of M "pre @ chunks"] add_descriptor_append [of M chunks])
  next
    case (Inr new)
    then show ?thesis
      using Cons.IH [of "chunks @ new"]
      by (simp add: add_descriptor_append [of M "pre @ chunks"] add_descriptor_append [of M chunks])
  qed
qed









text \<open>
  With a chunk limit other than zero and a list limit that is not negative, the
  chunk lists are built for every list of descriptors.
\<close>

lemma add_descriptor_total:
  assumes "M \<noteq> 0"
  shows "\<exists>chunks'. add_descriptor M chunks d = Inr chunks'"
  using assms by (cases d) (simp add: add_descriptor_def split_loop_eq Let_def)

lemma close_list_total:
  assumes "0 \<le> V"
  shows "\<exists>st'. close_list V st = Inr st'"
  using assms by (cases st) (simp add: close_list_def)

lemma build_chunks_total:
  assumes "M \<noteq> 0" and "0 \<le> V"
  shows "\<exists>st'. build_chunks M V st ds = Inr st'"
proof (induction ds arbitrary: st)
  case Nil
  show ?case by simp
next
  case (Cons d ds)
  obtain c1 where c1: "add_descriptor M (snd st) d = Inr c1"
    using add_descriptor_total [OF assms(1)] by blast
  obtain st1 where st1: "close_list V (fst st, c1) = Inr st1"
    using close_list_total [OF assms(2)] by blast
  show ?case using Cons.IH [of st1] c1 st1 by simp
qed

lemma build_chunkLists_total:
  assumes "M \<noteq> 0" and "0 \<le> V"
  shows "\<exists>chunkLists. build_chunkLists M V ds = Inr chunkLists"
proof -
  obtain st' where "build_chunks M V ([], []) ds = Inr st'"
    using build_chunks_total [OF assms] by blast
  then show ?thesis by (cases st') (simp add: build_chunkLists_def)
qed






text \<open>
  The chunks carried over are not cut again: when a descriptor leaves more than
  \<^verbatim>\<open>fReadvIovMax\<close> chunks behind and is the last one, the last list exceeds the limit.
\<close>

lemma carried_chunks_exceed_limit:
  "build_chunkLists 1 1 [(0, 3)]
     = Inr [[\<lparr>offset = 0, length_c = 1\<rparr>],
            [\<lparr>offset = 1, length_c = 1\<rparr>, \<lparr>offset = 2, length_c = 1\<rparr>,
             \<lparr>offset = 3, length_c = 0\<rparr>]]"
  by (simp add: build_chunkLists_def close_list_def add_descriptor_def split_loop.simps
        push_chunk_def Int_t_of_def uint64_of_def uint32_of_def signed_divide_int_def
        signed_modulo_int_def)

section \<open>Dispatch and join\<close>

lemma dispatch_accepted:
  assumes "\<forall>i<length ls. IsOK (vread (k + i) (ls ! i))"
  shows "dispatch vread k ls = (k + length ls, None)"
  using assms
proof (induction ls arbitrary: k)
  case Nil
  show ?case by simp
next
  case (Cons l ls)
  from Cons.prems have "IsOK (vread k l)" by fastforce
  moreover have "\<forall>i<length ls. IsOK (vread (Suc k + i) (ls ! i))"
  proof (intro allI impI)
    fix i assume "i < length ls"
    with Cons.prems have "IsOK (vread (k + Suc i) ((l # ls) ! Suc i))" by fastforce
    then show "IsOK (vread (Suc k + i) (ls ! i))" by simp
  qed
  ultimately show ?case using Cons.IH [of "Suc k"] by simp
qed

lemma dispatch_rejected:
  assumes "j < length ls" and "\<not> IsOK (vread (k + j) (ls ! j))"
      and "\<forall>i<j. IsOK (vread (k + i) (ls ! i))"
  shows "dispatch vread k ls = (Suc (k + j), Some (vread (k + j) (ls ! j)))"
  using assms
proof (induction ls arbitrary: k j)
  case Nil
  then show ?case by simp
next
  case (Cons l ls)
  show ?case
  proof (cases j)
    case 0
    with Cons.prems show ?thesis by simp
  next
    case (Suc j')
    with Cons.prems have ok: "IsOK (vread k l)" by fastforce
    have a: "j' < length ls" using Cons.prems Suc by simp
    have b: "\<not> IsOK (vread (Suc k + j') (ls ! j'))" using Cons.prems Suc by simp
    have c: "\<forall>i<j'. IsOK (vread (Suc k + i) (ls ! i))"
    proof (intro allI impI)
      fix i assume "i < j'"
      then have "Suc i < j" using Suc by simp
      with Cons.prems have "IsOK (vread (k + Suc i) ((l # ls) ! Suc i))" by blast
      then show "IsOK (vread (Suc k + i) (ls ! i))" by simp
    qed
    from Cons.IH [OF a b c] ok Suc show ?thesis by simp
  qed
qed

lemma responses_by_index:
  assumes "distinct order" and "set order \<subseteq> {..<length statuses}"
  shows "responses (statuses, semaphore) (map (\<lambda>i. (i, st i)) order) =
           Inr (map (\<lambda>i. if i \<in> set order then Some (st i) else statuses ! i)
                  [0..<length statuses],
                semaphore + length order)"
  using assms
proof (induction order arbitrary: statuses semaphore)
  case Nil
  show ?case by (simp add: map_nth)
next
  case (Cons a order)
  let ?s = "statuses[a := Some (st a)]"
  from Cons.prems have a: "a < length statuses" "a \<notin> set order" by auto
  have step: "TAsyncReadvHandler_HandleResponse (statuses, semaphore) (a, st a)
                = Inr (?s, Suc semaphore)"
    using a by (simp add: TAsyncReadvHandler_HandleResponse_def)
  have "responses (?s, Suc semaphore) (map (\<lambda>i. (i, st i)) order) =
           Inr (map (\<lambda>i. if i \<in> set order then Some (st i) else ?s ! i) [0..<length ?s],
                Suc semaphore + length order)"
    using Cons.prems by (intro Cons.IH) auto
  moreover have "map (\<lambda>i. if i \<in> set order then Some (st i) else ?s ! i) [0..<length ?s]
      = map (\<lambda>i. if i \<in> set (a # order) then Some (st i) else statuses ! i)
          [0..<length statuses]"
    using a by (auto simp: nth_list_update)
  ultimately show ?case using step by simp
qed

lemma responses_complete:
  assumes "distinct order" and "set order = {..<n}"
  shows "responses (replicate n None, 0) (map (\<lambda>i. (i, st i)) order) =
           Inr (map (\<lambda>i. Some (st i)) [0..<n], n)"
proof -
  have "length order = n"
    using assms distinct_card [of order] by simp
  moreover have "map (\<lambda>i. if i \<in> set order then Some (st i) else replicate n None ! i) [0..<n]
        = map (\<lambda>i. Some (st i)) [0..<n]"
    using assms(2) by auto
  ultimately show ?thesis
    using responses_by_index [of order "replicate n None" 0 st] assms by simp
qed

lemma wait_all_enough: "n \<le> semaphore \<Longrightarrow> wait_all n semaphore = Inr (semaphore - n)"
  by (induction n arbitrary: semaphore) auto

lemma wait_all_short: "semaphore < n \<Longrightarrow> wait_all n semaphore = Inl WaitsForever"
  by (induction n arbitrary: semaphore) auto

lemma check_errors_ok_prefix:
  "\<forall>s \<in> set pre. IsOK s \<Longrightarrow>
     check_errors n (map Some pre @ rest) = check_errors (n + length pre) rest"
  by (induction pre arbitrary: n) auto

lemma check_errors_first_failure:
  assumes "k < n" and "\<not> IsOK (st k)" and "\<forall>i<k. IsOK (st i)"
  shows "check_errors 0 (map (\<lambda>i. Some (st i)) [0..<n]) = (k, Inr (Some (st k)))"
proof -
  have "[0..<n] = [0..<k] @ k # [Suc k..<n]"
    using assms(1) by (metis le_add1 less_imp_add_positive upt_add_eq_append upt_conv_Cons zero_le add_0)
  then have split: "map (\<lambda>i. Some (st i)) [0..<n]
      = map Some (map st [0..<k]) @ Some (st k) # map (\<lambda>i. Some (st i)) [Suc k..<n]"
    by simp
  have "\<forall>s \<in> set (map st [0..<k]). IsOK s" using assms(3) by auto
  then have "check_errors 0 (map Some (map st [0..<k])
                 @ Some (st k) # map (\<lambda>i. Some (st i)) [Suc k..<n])
      = check_errors (0 + length (map st [0..<k]))
          (Some (st k) # map (\<lambda>i. Some (st i)) [Suc k..<n])"
    by (rule check_errors_ok_prefix)
  also have "\<dots> = (k, Inr (Some (st k)))" using assms(2) by simp
  finally show ?thesis unfolding split .
qed


text \<open>
  When every chunk list is accepted and every response arrives, in whatever order,
  the call gets through its waits, and what it does next is decided by the
  statuses in the order of the indices.
\<close>

lemma ReadBuffers_joined:
  assumes "fst (IsUseable f)"
      and "build_chunkLists (fReadvIorMax f) (fReadvIovMax f) (add_archive_offset f ds)
             = Inr chunkLists"
      and "\<forall>i<length chunkLists. IsOK (vread i (chunkLists ! i))"
      and "distinct order" and "set order = {..<length chunkLists}"
  shows "ReadBuffers f ds gPerfStats vread (map (\<lambda>i. (i, st i)) order) =
     (case check_errors 0 (map (\<lambda>i. Some (st i)) [0..<length chunkLists]) of
        (k, Inl e) \<Rightarrow>
          \<lparr>returned = Inl e, errors = [], submitted = chunkLists,
           waited = length chunkLists, deleted = k, freed = False, read_event = None,
           this = f\<rparr>
      | (k, Inr (Some s)) \<Rightarrow>
          \<lparr>returned = Inl UseAfterFree, errors = [ToStr s], submitted = chunkLists,
           waited = length chunkLists, deleted = k, freed = True, read_event = None,
           this = f\<rparr>
      | (k, Inr None) \<Rightarrow>
          let f' = f\<lparr>fBytesRead := Long64_t_of (fBytesRead f + total_bytes ds),
                     fReadCalls := Int_t_of (fReadCalls f + 1)\<rparr>
          in if gPerfStats then
               (case add_archive_offset f ds of
                  [] \<Rightarrow>
                    \<lparr>returned = Inl ArrayOutOfBounds, errors = [], submitted = chunkLists,
                     waited = length chunkLists, deleted = k, freed = False,
                     read_event = None, this = f'\<rparr>
                | d # _ \<Rightarrow>
                    \<lparr>returned = Inr False, errors = [], submitted = chunkLists,
                     waited = length chunkLists, deleted = k, freed = True,
                     read_event = Some (Long64_t_of
                       (fst (last (add_archive_offset f ds))
                        + snd (last (add_archive_offset f ds)) - fst d)),
                     this = f'\<lparr>fOffset := fst d\<rparr>\<rparr>)
             else
               \<lparr>returned = Inr False, errors = [], submitted = chunkLists,
                waited = length chunkLists, deleted = k, freed = True, read_event = None,
                this = f'\<rparr>)"
proof -
  have d: "dispatch vread 0 chunkLists = (length chunkLists, None)"
    using dispatch_accepted [of chunkLists vread 0] assms(3) by simp
  have r: "responses (replicate (length chunkLists) None, 0) (map (\<lambda>i. (i, st i)) order)
      = Inr (map (\<lambda>i. Some (st i)) [0..<length chunkLists], length chunkLists)"
    using assms(4,5) by (rule responses_complete)
  have w: "wait_all (length chunkLists) (length chunkLists) = Inr 0"
    by (simp add: wait_all_enough)
  show ?thesis
    unfolding ReadBuffers_def Let_def
    using assms(1) by (simp add: assms(2) d r w)
qed

text \<open>
  The outcome of a join with a failure, for every order of arrival: the message
  of the lowest index that failed is passed to \<^verbatim>\<open>Error\<close>, and the call runs into the
  read of the deleted status vector.
\<close>

lemma ReadBuffers_join_failure:
  assumes "fst (IsUseable f)"
      and "build_chunkLists (fReadvIorMax f) (fReadvIovMax f) (add_archive_offset f ds)
             = Inr chunkLists"
      and "\<forall>i<length chunkLists. IsOK (vread i (chunkLists ! i))"
      and "distinct order" and "set order = {..<length chunkLists}"
      and "k < length chunkLists" and "\<not> IsOK (st k)" and "\<forall>i<k. IsOK (st i)"
  shows "ReadBuffers f ds gPerfStats vread (map (\<lambda>i. (i, st i)) order) =
          \<lparr>returned = Inl UseAfterFree, errors = [ToStr (st k)], submitted = chunkLists,
           waited = length chunkLists, deleted = k, freed = True, read_event = None,
           this = f\<rparr>"
proof -
  have "check_errors 0 (map (\<lambda>i. Some (st i)) [0..<length chunkLists])
          = (k, Inr (Some (st k)))"
    using assms(6-8) by (rule check_errors_first_failure)
  then show ?thesis
    using ReadBuffers_joined [of f ds chunkLists vread order gPerfStats st] assms(1-5)
    by simp
qed

text \<open>
  A call with a response missing does not get through its waits: it is stopped
  after as many waits as responses have arrived.
\<close>

lemma ReadBuffers_response_missing:
  assumes "fst (IsUseable f)"
      and "build_chunkLists (fReadvIorMax f) (fReadvIovMax f) (add_archive_offset f ds)
             = Inr chunkLists"
      and "\<forall>i<length chunkLists. IsOK (vread i (chunkLists ! i))"
      and "distinct order" and "set order \<subseteq> {..<length chunkLists}"
      and "length order < length chunkLists"
  shows "ReadBuffers f ds gPerfStats vread (map (\<lambda>i. (i, st i)) order) =
          \<lparr>returned = Inl WaitsForever, errors = [], submitted = chunkLists,
           waited = length order, deleted = 0, freed = False, read_event = None,
           this = f\<rparr>"
proof -
  have d: "dispatch vread 0 chunkLists = (length chunkLists, None)"
    using dispatch_accepted [of chunkLists vread 0] assms(3) by simp
  have r: "responses (replicate (length chunkLists) None, 0) (map (\<lambda>i. (i, st i)) order)
      = Inr (map (\<lambda>i. if i \<in> set order then Some (st i)
                       else replicate (length chunkLists) None ! i)
               [0..<length (replicate (length chunkLists) None :: XRootDStatus option list)],
             0 + length order)"
    using assms(4,5) by (intro responses_by_index) auto
  have w: "wait_all (length chunkLists) (length order) = Inl WaitsForever"
    using assms(6) by (rule wait_all_short)
  show ?thesis
    unfolding ReadBuffers_def Let_def
    using assms(1) by (simp add: assms(2) d r w)
qed


text \<open>
  C3 at a call with three chunk lists, all accepted, whose responses arrive in the
  order 2, 0, 1, the last two of them failures. The call waits three times and
  passes the message of list 1, the lowest index that failed, to \<^verbatim>\<open>Error\<close>. It then
  deletes the status vector and reads it: it does not get to report the failure
  to its caller by defined behaviour.
\<close>

theorem join_failure_reads_deleted_statuses:
  "ReadBuffers (opened_file\<lparr>fReadvIovMax := 1\<rparr>) [(0, 10), (10, 10)] False
       (\<lambda>i l. XRootDStatus True ''[SUCCESS]'')
       [(2, XRootDStatus False ''[ERROR] third''),
        (0, XRootDStatus True ''[SUCCESS]''),
        (1, XRootDStatus False ''[ERROR] second'')]
     = \<lparr>returned = Inl UseAfterFree, errors = [''[ERROR] second''],
        submitted = [[\<lparr>offset = 0, length_c = 10\<rparr>], [\<lparr>offset = 10, length_c = 10\<rparr>], []],
        waited = 3, deleted = 1, freed = True, read_event = None,
        this = opened_file\<lparr>fReadvIovMax := 1\<rparr>\<rparr>"
  by (simp add: ReadBuffers_def IsUseable_def IsOpen_def opened_file_def add_archive_offset_def
      build_chunkLists_def close_list_def add_descriptor_def push_chunk_def Int_t_of_def
      uint64_of_def uint32_of_def TAsyncReadvHandler_HandleResponse_def total_bytes_def)




lemma total_bytes_zero_length:
  assumes "\<forall>d \<in> set ds. snd d = 0"
  shows "total_bytes ds = 0"
proof -
  have "foldl (\<lambda>totalBytes d. Int_t_of (totalBytes + snd d)) 0 ds = 0"
    using assms by (induction ds) (simp_all add: Int_t_of_def)
  then show ?thesis by (simp add: total_bytes_def)
qed





text \<open>
  With \<open>gPerfStats\<close> set, the same call goes on to read \<^verbatim>\<open>position[0]\<close> of an array
  without elements.
\<close>

lemma no_descriptors_perf_stats:
  "returned (ReadBuffers opened_file [] True (\<lambda>i l. XRootDStatus True ''[SUCCESS]'')
       [(0, XRootDStatus True ''[SUCCESS]'')]) = Inl ArrayOutOfBounds"
  by (simp add: ReadBuffers_def IsUseable_def IsOpen_def opened_file_def add_archive_offset_def
      build_chunkLists_def TAsyncReadvHandler_HandleResponse_def total_bytes_def)

text \<open>
  A submission that is rejected ends the call at once, whatever has been
  submitted before and whatever arrives.
\<close>

lemma ReadBuffers_rejected:
  assumes "fst (IsUseable f)"
      and "build_chunkLists (fReadvIorMax f) (fReadvIovMax f) (add_archive_offset f ds)
             = Inr chunkLists"
      and "j < length chunkLists" and "\<not> IsOK (vread j (chunkLists ! j))"
      and "\<forall>i<j. IsOK (vread i (chunkLists ! i))"
  shows "ReadBuffers f ds gPerfStats vread arrivals =
           \<lparr>returned = Inr True, errors = [ToStr (vread j (chunkLists ! j))],
            submitted = take (Suc j) chunkLists, waited = 0, deleted = 0,
            freed = False, read_event = None, this = f\<rparr>"
proof -
  have "dispatch vread 0 chunkLists = (Suc j, Some (vread j (chunkLists ! j)))"
    using dispatch_rejected [of j chunkLists vread 0] assms(3-5) by simp
  then show ?thesis
    unfolding ReadBuffers_def Let_def using assms(1) by (simp add: assms(2))
qed

text \<open>
  C7 at a call with three chunk lists of which the second is rejected. The call
  returns \<^verbatim>\<open>kTRUE\<close> at once and the first submission stays in flight, but its response
  is not waited for, and neither the status vector nor the semaphore is deleted.
\<close>

theorem rejected_submission_not_drained:
  "ReadBuffers (opened_file\<lparr>fReadvIovMax := 1\<rparr>) [(0, 10), (10, 10)] False
       (\<lambda>i l. if i = 1 then XRootDStatus False ''[ERROR] Invalid request''
               else XRootDStatus True ''[SUCCESS]'')
       [(0, XRootDStatus True ''[SUCCESS]'')]
     = \<lparr>returned = Inr True, errors = [''[ERROR] Invalid request''],
        submitted = [[\<lparr>offset = 0, length_c = 10\<rparr>], [\<lparr>offset = 10, length_c = 10\<rparr>]],
        waited = 0, deleted = 0, freed = False, read_event = None,
        this = opened_file\<lparr>fReadvIovMax := 1\<rparr>\<rparr>"
  by (simp add: ReadBuffers_def IsUseable_def IsOpen_def opened_file_def add_archive_offset_def
      build_chunkLists_def close_list_def add_descriptor_def push_chunk_def Int_t_of_def
      uint64_of_def uint32_of_def)

section \<open>The status of an asynchronous open\<close>

lemma read_limits_status: "fAsyncOpenStatus (read_limits f tokens) = fAsyncOpenStatus f"
  by (induction tokens arbitrary: f) auto

lemma GetVectorReadLimits_status:
  "fAsyncOpenStatus (fst (snd (GetVectorReadLimits f config))) = fAsyncOpenStatus f"
  by (simp add: GetVectorReadLimits_def Let_def read_limits_status split: option.splits)

lemma ReOpen_status:
  "fAsyncOpenStatus (fst (snd (ReOpen f modestr st))) = fAsyncOpenStatus f"
  by (simp add: ReOpen_def Let_def)

lemma ReadBuffers_status:
  "fAsyncOpenStatus (this (ReadBuffers f ds gPerfStats vread arrivals)) = fAsyncOpenStatus f"
  by (simp add: ReadBuffers_def Let_def
      split: sum.splits prod.splits option.splits list.splits)

text \<open>
  C8, as the code has it. \<^verbatim>\<open>ReOpen\<close>, \<^verbatim>\<open>ReadBuffers\<close> and \<^verbatim>\<open>GetVectorReadLimits\<close> leave
  the status of the asynchronous open as it is, and the response handler of an
  open only ever stores a terminal status, Success for a status that is OK and
  Failure otherwise: none of them takes the status back to InProgress or
  NotStarted. \<^verbatim>\<open>SetAsyncOpenStatus\<close> itself is no no-op after a terminal status: it
  stores the status it is given, whatever the status before, and signals the
  condition variable once more.
\<close>

theorem async_open_status_kept_or_overwritten:
  "SetAsyncOpenStatus f status
     = f\<lparr>fAsyncOpenStatus := status, fInitCondVar_signals := Suc (fInitCondVar_signals f)\<rparr>
   \<and> TAsyncOpenHandler_HandleResponse f st
     = f\<lparr>fAsyncOpenStatus := (if IsOK st then kAOSSuccess else kAOSFailure),
         fInitCondVar_signals := Suc (fInitCondVar_signals f)\<rparr>
   \<and> fAsyncOpenStatus (TAsyncOpenHandler_HandleResponse f st) \<noteq> kAOSInProgress
   \<and> fAsyncOpenStatus (TAsyncOpenHandler_HandleResponse f st) \<noteq> kAOSNotAsync
   \<and> fAsyncOpenStatus (fst (snd (ReOpen f modestr ost))) = fAsyncOpenStatus f
   \<and> fAsyncOpenStatus (this (ReadBuffers f ds gPerfStats vread arrivals)) = fAsyncOpenStatus f
   \<and> fAsyncOpenStatus (fst (snd (GetVectorReadLimits f config))) = fAsyncOpenStatus f"
proof -
  have "TAsyncOpenHandler_HandleResponse f st
     = f\<lparr>fAsyncOpenStatus := (if IsOK st then kAOSSuccess else kAOSFailure),
         fInitCondVar_signals := Suc (fInitCondVar_signals f)\<rparr>"
    by (simp add: TAsyncOpenHandler_HandleResponse_def SetAsyncOpenStatus_def)
  moreover from this
  have "fAsyncOpenStatus (TAsyncOpenHandler_HandleResponse f st) \<noteq> kAOSInProgress"
    and "fAsyncOpenStatus (TAsyncOpenHandler_HandleResponse f st) \<noteq> kAOSNotAsync"
    by simp_all
  ultimately show ?thesis
    by (simp add: SetAsyncOpenStatus_def ReOpen_status ReadBuffers_status
        GetVectorReadLimits_status)
qed

text \<open>
  From Success, a call with InProgress leads back to InProgress, and a second
  response that is not OK changes the file.
\<close>

theorem terminal_state_counterexample:
  "fAsyncOpenStatus (opened_file\<lparr>fAsyncOpenStatus := kAOSSuccess\<rparr>) = kAOSSuccess
   \<and> fAsyncOpenStatus
        (SetAsyncOpenStatus (opened_file\<lparr>fAsyncOpenStatus := kAOSSuccess\<rparr>) kAOSInProgress)
       = kAOSInProgress
   \<and> TAsyncOpenHandler_HandleResponse (opened_file\<lparr>fAsyncOpenStatus := kAOSSuccess\<rparr>)
        (XRootDStatus False ''[ERROR] Operation expired'')
       \<noteq> opened_file\<lparr>fAsyncOpenStatus := kAOSSuccess\<rparr>"
  by (simp add: SetAsyncOpenStatus_def TAsyncOpenHandler_HandleResponse_def opened_file_def)

section \<open>Init\<close>




section \<open>ReOpen\<close>

lemma ParseOpenMode_UPDATE: "ParseOpenMode ''UPDATE'' = OpenFlags_Update"
  by (simp add: ParseOpenMode_def ToUpper_def toupper_def)

text \<open>
  C10. When the mode changes from Read to Update or from Update to Read and the
  session's \<^verbatim>\<open>Open\<close> fails, \<^verbatim>\<open>ReOpen\<close> returns 1, with the session closed and \<^verbatim>\<open>fMode\<close>
  already set to the new mode. This is the value it returns when the mode is the
  one the file already has; and no call of \<^verbatim>\<open>ReOpen\<close> returns -1.
\<close>

theorem ReOpen_failure_returns_1:
  assumes "fMode f = OpenFlags_Read \<and> ParseOpenMode modestr = OpenFlags_Update
           \<or> fMode f = OpenFlags_Update \<and> ParseOpenMode modestr = OpenFlags_Read"
      and "\<not> IsOK st"
  shows "ReOpen f modestr st
           = (1, f\<lparr>fFile_IsOpen := False, fMode := ParseOpenMode modestr\<rparr>, [ToStr st])
         \<and> fst (ReOpen (f\<lparr>fMode := ParseOpenMode modestr\<rparr>) modestr st) = 1
         \<and> fst (ReOpen f' modestr' st') \<noteq> - 1"
  using assms by (auto simp: ReOpen_def Let_def)


theorem ReOpen_failure_returns_1_witness:
  "ReOpen opened_file ''UPDATE'' (XRootDStatus False ''[ERROR] Server responded with an error'')
     = (1, opened_file\<lparr>fFile_IsOpen := False, fMode := OpenFlags_Update\<rparr>,
        [''[ERROR] Server responded with an error''])
   \<and> fst (ReOpen (opened_file\<lparr>fMode := OpenFlags_Update\<rparr>) ''UPDATE''
        (XRootDStatus False ''[ERROR] Server responded with an error'')) = 1"
  using ReOpen_failure_returns_1 [of opened_file "''UPDATE''"
      "XRootDStatus False ''[ERROR] Server responded with an error''"]
  by (simp add: ParseOpenMode_UPDATE opened_file_def)


end
